theory Spec2Isabelle
  imports Main "HOL-Library.Word"
begin

section \<open>The audio transcription page (app/page.tsx)\<close>

text \<open>
  The page is one React component, \<open>Home\<close>, with six state hooks and two event
  handlers. The model keeps the hooks as the fields of a record, each handler as a
  function on that record, and the browser around the component (the clock, the pending
  \<open>setTimeout\<close> callbacks, the submissions that are suspended at an \<open>await\<close>, and the
  calls sent to the transcription service) as further fields of the same record.
\<close>

subsection \<open>Constants (lines 10 to 15)\<close>

definition MAX_FILE_SIZE :: nat where
  "MAX_FILE_SIZE = 10 * 1024 * 1024"

definition MAX_REQUESTS_PER_MINUTE :: int where
  "MAX_REQUESTS_PER_MINUTE = 10"

text \<open>Milliseconds, the unit of \<open>setTimeout\<close>.\<close>

definition REQUEST_INTERVAL :: nat where
  "REQUEST_INTERVAL = 60 * 1000"

definition SUPPORTED_FORMATS :: "string list" where
  "SUPPORTED_FORMATS = [''audio/mp3'', ''audio/mpeg'', ''audio/wav'', ''audio/x-wav'', ''audio/ogg'']"

text \<open>
  The attributes of a DOM \<open>File\<close> that the page reads. The fields are \<open>name\<close>,
  \<open>size\<close> and \<open>type\<close> in the source; they carry a prefix here because \<open>size\<close> is a
  constant of HOL. For the same reason the hook \<open>file\<close> of line 28 is the field
  \<open>file'\<close> below: \<open>file\<close> is a keyword of Isabelle.
\<close>

record File =
  fname :: string
  fsize :: nat
  ftype :: string

text \<open>\<open>Array.prototype.includes\<close> on strings is membership with exact equality.\<close>

definition isAudioFormatSupported :: "File \<Rightarrow> bool" where
  "isAudioFormatSupported f = (ftype f \<in> set SUPPORTED_FORMATS)"

subsection \<open>State\<close>

text \<open>
  A submission suspended at an \<open>await\<close>: the file its closure captured, and which
  promise it waits for (\<open>file.arrayBuffer()\<close>, line 66, or the service's answer,
  lines 69 to 80).
\<close>

datatype stage = AwaitBuffer | AwaitResponse

type_synonym job = "File \<times> stage"

text \<open>The inline payload of one \<open>generateContent\<close> call (lines 72 to 75).\<close>

record request =
  mimeType :: string
  data :: string

text \<open>
  The first six fields are the \<open>useState\<close> hooks of lines 28 to 33. The others are the
  environment: \<open>now\<close> is the clock in milliseconds, \<open>timers\<close> holds the due time of
  every \<open>setTimeout\<close> callback of line 84 that has not run yet, \<open>inflight\<close> the
  suspended submissions, and \<open>calls\<close> the requests sent to the service so far.
\<close>

record state =
  file' :: "File option"
  transcript :: string
  isLoading :: bool
  error :: string
  progress :: nat
  requestCount :: int
  now :: nat
  timers :: "nat list"
  inflight :: "job list"
  calls :: "request list"

definition init :: state where
  "init = \<lparr>file' = None, transcript = [], isLoading = False, error = [], progress = 0,
     requestCount = 0, now = 0, timers = [], inflight = [], calls = []\<rparr>"

subsection \<open>Messages\<close>

text \<open>
  Decimal rendering of a natural number, for the template literal of line 39.
\<close>

fun show_nat :: "nat \<Rightarrow> string" where
  "show_nat n =
     (if n < 10 then [''0123456789'' ! n]
      else show_nat (n div 10) @ [''0123456789'' ! (n mod 10)])"

declare show_nat.simps [simp del]

text \<open>
  Line 39. \<open>MAX_FILE_SIZE / 1024 / 1024\<close> is a division of JavaScript numbers; both
  divisions are exact here, so \<open>div\<close> gives the same value.
\<close>

definition size_error :: string where
  "size_error =
     ''File size exceeds the maximum limit of '' @ show_nat (MAX_FILE_SIZE div 1024 div 1024) @ ''MB.''"

definition format_error :: string where
  "format_error = ''Unsupported audio format. Please upload an MP3, WAV, or OGG file.''"

definition rate_limit_error :: string where
  "rate_limit_error = ''Rate limit exceeded. Please wait before making another request.''"

definition transcription_error :: string where
  "transcription_error = ''Error transcribing audio. Please try again.''"

subsection \<open>handleFileChange (lines 35 to 49)\<close>

text \<open>
  \<open>event.target.files\<close> is a \<open>FileList\<close> or \<open>null\<close>. A \<open>FileList\<close> is an object,
  so the test of line 36 passes for an empty one too; then \<open>files[0]\<close> is
  \<open>undefined\<close> and reading its \<open>size\<close> on line 38 throws a \<open>TypeError\<close>.
\<close>

datatype fault = TypeError

definition handleFileChange :: "File list option \<Rightarrow> state \<Rightarrow> fault + state" where
  "handleFileChange files s =
     (case files of
        None \<Rightarrow> Inr s
      | Some fl \<Rightarrow>
          (case fl of
             [] \<Rightarrow> Inl TypeError
           | selectedFile # _ \<Rightarrow>
               if fsize selectedFile > MAX_FILE_SIZE then Inr (s\<lparr>error := size_error\<rparr>)
               else if \<not> isAudioFormatSupported selectedFile then Inr (s\<lparr>error := format_error\<rparr>)
               else Inr (s\<lparr>file' := Some selectedFile, error := []\<rparr>)))"

subsection \<open>Base64\<close>

text \<open>
  Modelled from the spec: \<open>window.btoa\<close> (line 24) is a function of the browser, not of
  this repository. Section 4.2 of the specification calls its result "a standard base64
  text encoding"; the definitions below follow RFC 4648, section 4, which is what the
  HTML standard prescribes for \<open>btoa\<close>: every three bytes give four characters of the
  alphabet, and a last group of one or two bytes is padded with \<open>=\<close>.
\<close>

definition b64_alphabet :: string where
  "b64_alphabet = ''ABCDEFGHIJKLMNOPQRSTUVWXYZabcdefghijklmnopqrstuvwxyz0123456789+/''"

definition b64_char :: "nat \<Rightarrow> char" where
  "b64_char n = b64_alphabet ! n"

fun b64_encode :: "nat list \<Rightarrow> string" where
  "b64_encode (a # b # c # rest) =
     [b64_char (a div 4), b64_char ((a mod 4) * 16 + b div 16),
      b64_char ((b mod 16) * 4 + c div 64), b64_char (c mod 64)] @ b64_encode rest"
| "b64_encode [a, b] =
     [b64_char (a div 4), b64_char ((a mod 4) * 16 + b div 16),
      b64_char ((b mod 16) * 4), CHR ''='']"
| "b64_encode [a] =
     [b64_char (a div 4), b64_char ((a mod 4) * 16), CHR ''='', CHR ''='']"
| "b64_encode [] = []"

text \<open>
  A JavaScript string is a sequence of 16-bit code units. \<open>btoa\<close> throws an
  \<open>InvalidCharacterError\<close> when a code unit is above 255, and encodes the code units as
  bytes otherwise.
\<close>

type_synonym js_string = "16 word list"

datatype dom_exception = InvalidCharacterError

definition btoa :: "js_string \<Rightarrow> dom_exception + string" where
  "btoa s =
     (if list_ex (\<lambda>c. 255 < c) s then Inl InvalidCharacterError
      else Inr (b64_encode (map unat s)))"

text \<open>
  The decoder the round trip is measured against: RFC 4648 decoding of a padded text,
  with the position of a character in the alphabet as its value. It is not part of the
  page (the transcription service decodes the payload).
\<close>

fun index_of :: "'a \<Rightarrow> 'a list \<Rightarrow> nat option" where
  "index_of x [] = None"
| "index_of x (y # ys) =
     (if x = y then Some 0 else (case index_of x ys of None \<Rightarrow> None | Some i \<Rightarrow> Some (Suc i)))"

definition b64_value :: "char \<Rightarrow> nat option" where
  "b64_value c = index_of c b64_alphabet"

fun b64_decode :: "string \<Rightarrow> nat list option" where
  "b64_decode (c0 # c1 # c2 # c3 # rest) =
     (if rest = [] \<and> c2 = CHR ''='' \<and> c3 = CHR ''='' then
        (case (b64_value c0, b64_value c1) of
           (Some s0, Some s1) \<Rightarrow> Some [s0 * 4 + s1 div 16]
         | _ \<Rightarrow> None)
      else if rest = [] \<and> c3 = CHR ''='' then
        (case (b64_value c0, b64_value c1, b64_value c2) of
           (Some s0, Some s1, Some s2) \<Rightarrow>
             Some [s0 * 4 + s1 div 16, (s1 mod 16) * 16 + s2 div 4]
         | _ \<Rightarrow> None)
      else
        (case (b64_value c0, b64_value c1, b64_value c2, b64_value c3) of
           (Some s0, Some s1, Some s2, Some s3) \<Rightarrow>
             (case b64_decode rest of
                None \<Rightarrow> None
              | Some bs \<Rightarrow>
                  Some ([s0 * 4 + s1 div 16, (s1 mod 16) * 16 + s2 div 4, (s2 mod 4) * 64 + s3] @ bs))
         | _ \<Rightarrow> None))"
| "b64_decode [] = Some []"
| "b64_decode _ = None"

definition base64_decode :: "string \<Rightarrow> 8 word list option" where
  "base64_decode txt = map_option (map of_nat) (b64_decode txt)"

subsection \<open>arrayBufferToBase64 (lines 17 to 25)\<close>

text \<open>
  The buffer is read through a \<open>Uint8Array\<close>, so its elements are 8-bit words.
  \<open>String.fromCharCode\<close> of a byte is the code unit of the same value; the loop of
  lines 21 to 23 appends one code unit for each byte, in order.
\<close>

definition fromCharCode :: "8 word \<Rightarrow> 16 word" where
  "fromCharCode b = ucast b"

fun binary_loop :: "js_string \<Rightarrow> 8 word list \<Rightarrow> js_string" where
  "binary_loop binary [] = binary"
| "binary_loop binary (b # bytes) = binary_loop (binary @ [fromCharCode b]) bytes"

definition arrayBufferToBase64 :: "8 word list \<Rightarrow> dom_exception + string" where
  "arrayBufferToBase64 buffer = btoa (binary_loop [] buffer)"

subsection \<open>handleSubmit (lines 51 to 92)\<close>

text \<open>
  The handler is asynchronous. It runs from line 52 to the first \<open>await\<close> on line 66
  when the form is submitted, and the rest runs when the awaited promises settle. Each
  piece below is one such run; \<open>k\<close> is the position of the submission in \<open>inflight\<close>.
\<close>

definition remove_nth :: "nat \<Rightarrow> 'a list \<Rightarrow> 'a list" where
  "remove_nth k xs = take k xs @ drop (Suc k) xs"

text \<open>
  Lines 52 to 66: the guards, the three updates before the \<open>try\<close>, and the suspension
  at \<open>await file.arrayBuffer()\<close>. The handler reads \<open>file\<close> and \<open>requestCount\<close> as
  of the latest render (line 92 names both as dependencies); the model reads their
  current values. \<open>getGenerativeModel\<close> on line 64 only builds the client
  object; the request to the service is the \<open>generateContent\<close> call of line 69.
\<close>

definition handleSubmit_begin :: "state \<Rightarrow> state" where
  "handleSubmit_begin s =
     (case file' s of
        None \<Rightarrow> s
      | Some f \<Rightarrow>
          if requestCount s \<ge> MAX_REQUESTS_PER_MINUTE then s\<lparr>error := rate_limit_error\<rparr>
          else s\<lparr>isLoading := True, error := [], progress := 0,
                 inflight := inflight s @ [(f, AwaitBuffer)]\<rparr>)"

text \<open>Lines 85 to 91: \<open>catch\<close>, then \<open>finally\<close>.\<close>

definition handleSubmit_catch :: "nat \<Rightarrow> state \<Rightarrow> state" where
  "handleSubmit_catch k s =
     s\<lparr>error := transcription_error, isLoading := False, progress := 100,
       inflight := remove_nth k (inflight s)\<rparr>"

text \<open>
  Lines 66 to 77, when \<open>file.arrayBuffer()\<close> resolves with the bytes: the bytes are
  encoded and the request is sent, with the MIME type of the file the closure captured.
  An exception of the encoder would be caught on line 85. The function is applied only
  to a position \<open>k\<close> within \<open>inflight\<close> (see \<open>step\<close> below).
\<close>

definition handleSubmit_encode :: "nat \<Rightarrow> 8 word list \<Rightarrow> state \<Rightarrow> state" where
  "handleSubmit_encode k arrayBuffer s =
     (case arrayBufferToBase64 arrayBuffer of
        Inl _ \<Rightarrow> handleSubmit_catch k s
      | Inr base64Audio \<Rightarrow>
          s\<lparr>calls := calls s @ [\<lparr>mimeType = ftype (fst (inflight s ! k)), data = base64Audio\<rparr>],
            inflight := (inflight s)[k := (fst (inflight s ! k), AwaitResponse)]\<rparr>)"

text \<open>
  Lines 79 to 84, when the service answers with \<open>text\<close>, then \<open>finally\<close>. The counter
  is updated through the function \<open>prevCount => prevCount + 1\<close>, so with its value at
  this moment, and the callback of line 84 is due \<open>REQUEST_INTERVAL\<close> after this moment.
\<close>

definition handleSubmit_then :: "nat \<Rightarrow> string \<Rightarrow> state \<Rightarrow> state" where
  "handleSubmit_then k text s =
     s\<lparr>transcript := text, requestCount := requestCount s + 1,
       timers := timers s @ [now s + REQUEST_INTERVAL],
       isLoading := False, progress := 100,
       inflight := remove_nth k (inflight s)\<rparr>"

text \<open>The callback of line 84: \<open>prevCount => Math.max(prevCount - 1, 0)\<close>.\<close>

definition timer_callback :: "state \<Rightarrow> state" where
  "timer_callback s = s\<lparr>requestCount := max (requestCount s - 1) 0\<rparr>"

subsection \<open>The page as a transition system\<close>

text \<open>
  What can happen to the page: the user picks files, the user submits the form, a promise
  of a suspended submission settles, time passes, a timer runs its callback.
\<close>

datatype event =
    Change "File list option"
  | Submit
  | BufferResolved nat "8 word list"
  | BufferRejected nat
  | CallResolved nat string
  | CallRejected nat
  | Tick nat
  | TimerFires nat

definition awaiting :: "stage \<Rightarrow> nat \<Rightarrow> state \<Rightarrow> bool" where
  "awaiting st k s = (k < length (inflight s) \<and> snd (inflight s ! k) = st)"

text \<open>
  \<open>step e s\<close> is \<open>None\<close> when \<open>e\<close> cannot happen in \<open>s\<close>:
  \<^item> a promise settles only for a submission that waits for it;
  \<^item> \<open>setTimeout\<close> runs a callback once, and not before its delay has passed.
  A submit event can arrive in every state. \<open>handleSubmit\<close> tests \<open>file\<close> and
  \<open>requestCount\<close> only (lines 53 to 58) and never reads \<open>isLoading\<close>; the attribute
  \<open>disabled\<close> of the button (line 117) is written at the next render, so it does not
  keep a second submit event from reaching the handler while a first submission is
  suspended.
  An exception thrown by \<open>handleFileChange\<close> leaves every hook as it was: no setter
  ran before line 38.
\<close>

fun step :: "event \<Rightarrow> state \<Rightarrow> state option" where
  "step (Change files) s =
     (case handleFileChange files s of Inl _ \<Rightarrow> Some s | Inr s' \<Rightarrow> Some s')"
| "step Submit s = Some (handleSubmit_begin s)"
| "step (BufferResolved k bytes) s =
     (if awaiting AwaitBuffer k s then Some (handleSubmit_encode k bytes s) else None)"
| "step (BufferRejected k) s =
     (if awaiting AwaitBuffer k s then Some (handleSubmit_catch k s) else None)"
| "step (CallResolved k text) s =
     (if awaiting AwaitResponse k s then Some (handleSubmit_then k text s) else None)"
| "step (CallRejected k) s =
     (if awaiting AwaitResponse k s then Some (handleSubmit_catch k s) else None)"
| "step (Tick d) s = Some (s\<lparr>now := now s + d\<rparr>)"
| "step (TimerFires i) s =
     (if i < length (timers s) \<and> timers s ! i \<le> now s
      then Some (timer_callback (s\<lparr>timers := remove_nth i (timers s)\<rparr>))
      else None)"

fun run :: "event list \<Rightarrow> state \<Rightarrow> state option" where
  "run [] s = Some s"
| "run (e # es) s = (case step e s of None \<Rightarrow> None | Some s' \<Rightarrow> run es s')"

subsection \<open>Invariants\<close>

text \<open>
  What holds of every state the page can be in: every counted request has its decrement
  pending, and a file is selected as soon as a request was counted or is under way.
\<close>

definition page_inv :: "state \<Rightarrow> bool" where
  "page_inv s \<longleftrightarrow>
     requestCount s = int (length (timers s)) \<and>
     ((0 < requestCount s \<or> inflight s \<noteq> []) \<longrightarrow> file' s \<noteq> None)"

text \<open>
  A sequence of events in which no submit event arrives while the page is loading.
  These are the sequences that remain once the button of line 117 has been rendered
  disabled after each accepted submission.
\<close>

fun no_overlap :: "event list \<Rightarrow> state \<Rightarrow> bool" where
  "no_overlap [] s = True"
| "no_overlap (e # es) s =
     ((e = Submit \<longrightarrow> \<not> isLoading s) \<and>
      (case step e s of None \<Rightarrow> True | Some s' \<Rightarrow> no_overlap es s'))"

text \<open>
  What holds in addition along such sequences: at most one submission is suspended, the
  page is loading while it is, and the counter and the suspended submission together
  stay within the limit.
\<close>

definition serial_inv :: "state \<Rightarrow> bool" where
  "serial_inv s \<longleftrightarrow>
     length (inflight s) \<le> 1 \<and>
     (inflight s \<noteq> [] \<longrightarrow> isLoading s) \<and>
     requestCount s + int (length (inflight s)) \<le> MAX_REQUESTS_PER_MINUTE"

subsection \<open>Sample inputs\<close>

definition sample_audio :: File where
  "sample_audio = \<lparr>fname = ''memo.mp3'', fsize = 2048, ftype = ''audio/mpeg''\<rparr>"

definition oversized_audio :: File where
  "oversized_audio = \<lparr>fname = ''concert.wav'', fsize = 10485761, ftype = ''audio/wav''\<rparr>"

definition text_document :: File where
  "text_document = \<lparr>fname = ''notes.txt'', fsize = 5, ftype = ''text/plain''\<rparr>"

text \<open>One submission that succeeds: submit, the bytes \<open>Man\<close> are read, the service answers.\<close>

definition one_success :: "event list" where
  "one_success = [Submit, BufferResolved 0 [77, 97, 110], CallResolved 0 ''hello'']"

definition nine_successes :: "event list" where
  "nine_successes =
     Change (Some [sample_audio]) #
     one_success @ one_success @ one_success @ one_success @ one_success @
     one_success @ one_success @ one_success @ one_success"

definition ten_successes :: "event list" where
  "ten_successes = nine_successes @ one_success"

text \<open>
  Nine submissions that succeed, then two that overlap: the second submit event arrives
  while the first submission is suspended, and both are answered.
\<close>

definition overlapping :: "event list" where
  "overlapping =
     nine_successes @
     [Submit, Submit, BufferResolved 0 [77, 97, 110], BufferResolved 1 [77, 97, 110],
      CallResolved 0 ''hello'', CallResolved 0 ''hello'']"

text \<open>The state after \<open>ten_successes\<close>: the counter is at the limit.\<close>

definition saturated :: state where
  "saturated =
     \<lparr>file' = Some sample_audio, transcript = ''hello'', isLoading = False, error = [],
      progress = 100, requestCount = 10, now = 0, timers = replicate 10 60000, inflight = [],
      calls = replicate 10 \<lparr>mimeType = ''audio/mpeg'', data = ''TWFu''\<rparr>\<rparr>"

text \<open>The state after \<open>overlapping\<close>: the counter is above the limit.\<close>

definition overfull :: state where
  "overfull =
     \<lparr>file' = Some sample_audio, transcript = ''hello'', isLoading = False, error = [],
      progress = 100, requestCount = 11, now = 0, timers = 60000 # replicate 10 60000,
      inflight = [],
      calls = \<lparr>mimeType = ''audio/mpeg'', data = ''TWFu''\<rparr> #
        replicate 10 \<lparr>mimeType = ''audio/mpeg'', data = ''TWFu''\<rparr>\<rparr>"

text \<open>The state in which the first submission waits for the service's answer.\<close>

definition waiting :: state where
  "waiting =
     \<lparr>file' = Some sample_audio, transcript = [], isLoading = True, error = [],
      progress = 0, requestCount = 0, now = 0, timers = [],
      inflight = [(sample_audio, AwaitResponse)],
      calls = [\<lparr>mimeType = ''audio/mpeg'', data = ''TWFu''\<rparr>]\<rparr>"

text \<open>The bytes 0, 1, ..., 255.\<close>

definition all_bytes :: "8 word list" where
  "all_bytes = map of_nat [0..<256]"

section \<open>Properties\<close>

subsection \<open>Messages and lists\<close>

lemma size_error_text: "size_error = ''File size exceeds the maximum limit of 10MB.''"
  by (simp add: size_error_def MAX_FILE_SIZE_def show_nat.simps)

lemma length_remove_nth: "k < length xs \<Longrightarrow> length (remove_nth k xs) = length xs - 1"
  by (simp add: remove_nth_def)

lemma remove_nth_single: "k < length xs \<Longrightarrow> length xs \<le> Suc 0 \<Longrightarrow> remove_nth k xs = []"
  by (cases xs) (auto simp: remove_nth_def)

lemma set_remove_nth:
  assumes "x \<in> set xs" and "x \<noteq> xs ! k"
  shows "x \<in> set (remove_nth k xs)"
proof (cases "k < length xs")
  case True
  then have "xs = take k xs @ xs ! k # drop (Suc k) xs"
    by (rule id_take_nth_drop)
  then have "set xs = set (take k xs) \<union> insert (xs ! k) (set (drop (Suc k) xs))"
    by (metis list.simps(15) set_append)
  with assms show ?thesis by (auto simp: remove_nth_def)
next
  case False
  with assms(1) show ?thesis by (simp add: remove_nth_def)
qed

subsection \<open>The invariant holds in every reachable state\<close>

text \<open>
  \<open>handleFileChange\<close> writes the selected file and the error message and nothing else,
  and it never clears the selected file.
\<close>

lemma handleFileChange_frame:
  "handleFileChange files s = Inr s' \<Longrightarrow>
     requestCount s' = requestCount s \<and> timers s' = timers s \<and> inflight s' = inflight s \<and>
     isLoading s' = isLoading s \<and> calls s' = calls s \<and> now s' = now s \<and>
     transcript s' = transcript s \<and> progress s' = progress s \<and>
     (file' s \<noteq> None \<longrightarrow> file' s' \<noteq> None)"
  by (auto simp: handleFileChange_def split: option.splits list.splits if_splits)

lemma inv_init: "page_inv init"
  by (simp add: page_inv_def init_def)

lemma inv_step:
  assumes "page_inv s" and "step e s = Some s'"
  shows "page_inv s'"
proof (cases e)
  case (Change files)
  with assms show ?thesis
    by (auto simp: page_inv_def split: sum.splits dest!: handleFileChange_frame)
next
  case Submit
  with assms show ?thesis
    by (auto simp: page_inv_def handleSubmit_begin_def split: if_splits option.splits)
next
  case (BufferResolved k bytes)
  with assms show ?thesis
    by (auto simp: page_inv_def handleSubmit_encode_def handleSubmit_catch_def awaiting_def
        split: if_splits sum.splits)
next
  case (BufferRejected k)
  with assms show ?thesis
    by (auto simp: page_inv_def handleSubmit_catch_def awaiting_def split: if_splits)
next
  case (CallResolved k tx)
  with assms show ?thesis
    by (auto simp: page_inv_def handleSubmit_then_def awaiting_def split: if_splits)
next
  case (CallRejected k)
  with assms show ?thesis
    by (auto simp: page_inv_def handleSubmit_catch_def awaiting_def split: if_splits)
next
  case (Tick d)
  with assms show ?thesis by (auto simp: page_inv_def)
next
  case (TimerFires i)
  with assms show ?thesis
    by (auto simp: page_inv_def timer_callback_def length_remove_nth split: if_splits)
qed

lemma inv_run: "page_inv s \<Longrightarrow> run es s = Some s' \<Longrightarrow> page_inv s'"
proof (induction es arbitrary: s)
  case Nil
  then show ?case by simp
next
  case (Cons e es)
  then show ?case by (auto split: option.splits dest: inv_step)
qed

lemma inv_reachable: "run es init = Some s \<Longrightarrow> page_inv s"
  using inv_init by (rule inv_run)

text \<open>
  In a reachable state a counter above zero means that a file is selected, so the early
  return of line 53 is not what a submission meets there.
\<close>

lemma counted_implies_file:
  "run es init = Some s \<Longrightarrow> 0 < requestCount s \<Longrightarrow> file' s \<noteq> None"
  by (auto dest!: inv_reachable simp: page_inv_def)

text \<open>In a reachable state the floor of the timer callback is never reached.\<close>

lemma timer_fires_exact:
  assumes "page_inv s" and "step (TimerFires i) s = Some s'"
  shows "timers s ! i \<le> now s \<and> requestCount s' = requestCount s - 1 \<and>
         requestCount s' = max (requestCount s - 1) 0 \<and> 0 \<le> requestCount s'"
  using assms by (auto simp: page_inv_def timer_callback_def split: if_splits)

subsection \<open>Submissions that do not overlap stay within the limit\<close>

lemma serial_init: "serial_inv init"
  by (simp add: serial_inv_def init_def MAX_REQUESTS_PER_MINUTE_def)

lemma serial_step:
  assumes "serial_inv s" and "step e s = Some s'" and "e = Submit \<longrightarrow> \<not> isLoading s"
  shows "serial_inv s'"
proof (cases e)
  case (Change files)
  with assms show ?thesis
    by (auto simp: serial_inv_def split: sum.splits dest!: handleFileChange_frame)
next
  case Submit
  with assms show ?thesis
    by (auto simp: serial_inv_def handleSubmit_begin_def MAX_REQUESTS_PER_MINUTE_def
        split: if_splits option.splits)
next
  case (BufferResolved k bytes)
  with assms show ?thesis
    by (auto simp: serial_inv_def handleSubmit_encode_def handleSubmit_catch_def awaiting_def
        length_remove_nth remove_nth_single split: if_splits sum.splits)
next
  case (BufferRejected k)
  with assms show ?thesis
    by (auto simp: serial_inv_def handleSubmit_catch_def awaiting_def length_remove_nth
        remove_nth_single split: if_splits)
next
  case (CallResolved k tx)
  with assms show ?thesis
    by (auto simp: serial_inv_def handleSubmit_then_def awaiting_def length_remove_nth
        remove_nth_single split: if_splits)
next
  case (CallRejected k)
  with assms show ?thesis
    by (auto simp: serial_inv_def handleSubmit_catch_def awaiting_def length_remove_nth
        remove_nth_single split: if_splits)
next
  case (Tick d)
  with assms show ?thesis by (auto simp: serial_inv_def)
next
  case (TimerFires i)
  with assms show ?thesis
    by (auto simp: serial_inv_def timer_callback_def MAX_REQUESTS_PER_MINUTE_def
        split: if_splits)
qed

lemma serial_run:
  "serial_inv s \<Longrightarrow> run es s = Some s' \<Longrightarrow> no_overlap es s \<Longrightarrow> serial_inv s'"
proof (induction es arbitrary: s)
  case Nil
  then show ?case by simp
next
  case (Cons e es)
  from Cons.prems(2) obtain s1 where s1: "step e s = Some s1" "run es s1 = Some s'"
    by (auto split: option.splits)
  from Cons.prems(3) s1(1) have ok: "e = Submit \<longrightarrow> \<not> isLoading s" and rest: "no_overlap es s1"
    by simp_all
  from Cons.prems(1) s1(1) ok have "serial_inv s1" by (rule serial_step)
  then show ?case using s1(2) rest by (rule Cons.IH)
qed

subsection \<open>The clock and the pending callbacks\<close>

text \<open>
  The clock never goes back, and a callback whose due time lies in the future stays
  pending whatever happens.
\<close>

lemma now_step: "step e s = Some s' \<Longrightarrow> now s \<le> now s'"
  by (cases e) (auto simp: handleSubmit_begin_def handleSubmit_encode_def handleSubmit_catch_def
      handleSubmit_then_def timer_callback_def split: if_splits sum.splits option.splits
      dest!: handleFileChange_frame)

lemma now_run: "run es s = Some s' \<Longrightarrow> now s \<le> now s'"
proof (induction es arbitrary: s)
  case Nil
  then show ?case by simp
next
  case (Cons e es)
  then show ?case by (fastforce split: option.splits dest: now_step)
qed

lemma pending_step:
  assumes "step e s = Some s'" and "d \<in> set (timers s)" and "now s < d"
  shows "d \<in> set (timers s')"
  using assms
  by (cases e) (auto simp: handleSubmit_begin_def handleSubmit_encode_def handleSubmit_catch_def
      handleSubmit_then_def timer_callback_def split: if_splits sum.splits option.splits
      dest!: handleFileChange_frame intro!: set_remove_nth)

lemma pending_run:
  "run es s = Some s' \<Longrightarrow> d \<in> set (timers s) \<Longrightarrow> now s' < d \<Longrightarrow> d \<in> set (timers s')"
proof (induction es arbitrary: s)
  case Nil
  then show ?case by simp
next
  case (Cons e es)
  from Cons.prems obtain s1 where s1: "step e s = Some s1" "run es s1 = Some s'"
    by (auto split: option.splits)
  have "now s \<le> now s1" using s1(1) by (rule now_step)
  moreover have "now s1 \<le> now s'" using s1(2) by (rule now_run)
  ultimately have "now s < d" using Cons.prems(3) by simp
  with s1(1) Cons.prems(2) have "d \<in> set (timers s1)" by (rule pending_step)
  then show ?case using Cons.IH s1(2) Cons.prems(3) by blast
qed

subsection \<open>Base64 decoding inverts encoding\<close>

lemma b64_alphabet_distinct: "distinct b64_alphabet"
  by (simp add: b64_alphabet_def)

lemma b64_alphabet_length: "length b64_alphabet = 64"
  by (simp add: b64_alphabet_def)

lemma pad_not_in_alphabet: "CHR ''='' \<notin> set b64_alphabet"
  by (simp add: b64_alphabet_def)

lemma index_of_nth: "distinct xs \<Longrightarrow> n < length xs \<Longrightarrow> index_of (xs ! n) xs = Some n"
proof (induction xs arbitrary: n)
  case Nil
  then show ?case by simp
next
  case (Cons x xs)
  show ?case
  proof (cases n)
    case 0
    then show ?thesis by simp
  next
    case (Suc m)
    with Cons.prems have "xs ! m \<in> set xs" "x \<notin> set xs" by auto
    then have "xs ! m \<noteq> x" by auto
    with Suc Cons show ?thesis by auto
  qed
qed

lemma b64_value_char: "n < 64 \<Longrightarrow> b64_value (b64_char n) = Some n"
  by (simp add: b64_value_def b64_char_def index_of_nth b64_alphabet_distinct b64_alphabet_length)

lemma b64_char_not_pad: "n < 64 \<Longrightarrow> b64_char n \<noteq> CHR ''=''"
proof -
  assume "n < 64"
  then have "b64_alphabet ! n \<in> set b64_alphabet" by (simp add: b64_alphabet_length)
  with pad_not_in_alphabet show ?thesis unfolding b64_char_def by metis
qed

lemma sextets:
  fixes a b c :: nat
  assumes "a < 256" "b < 256" "c < 256"
  shows "a div 4 < 64" "(a mod 4) * 16 + b div 16 < 64" "(b mod 16) * 4 + c div 64 < 64"
    "c mod 64 < 64" "(a mod 4) * 16 < 64" "(b mod 16) * 4 < 64"
proof -
  have a: "a mod 4 < 4" and b: "b mod 16 < 16" by simp_all
  have b16: "b div 16 < 16" and c64: "c div 64 < 4" using assms by (simp_all add: div_less_iff_less_mult)
  show "a div 4 < 64" using assms by (simp add: div_less_iff_less_mult)
  show "(a mod 4) * 16 + b div 16 < 64" using a b16 by linarith
  show "(b mod 16) * 4 + c div 64 < 64" using b c64 by linarith
  show "c mod 64 < 64" by simp
  show "(a mod 4) * 16 < 64" using a by linarith
  show "(b mod 16) * 4 < 64" using b by linarith
qed

lemma regroup1:
  fixes a b :: nat
  assumes "b < 256"
  shows "(a div 4) * 4 + ((a mod 4) * 16 + b div 16) div 16 = a"
proof -
  have "b div 16 < 16" using assms by (simp add: div_less_iff_less_mult)
  then have "((a mod 4) * 16 + b div 16) div 16 = a mod 4" by simp
  then show ?thesis by simp
qed

lemma regroup2:
  fixes a b c :: nat
  assumes "b < 256" "c < 256"
  shows "(((a mod 4) * 16 + b div 16) mod 16) * 16 + ((b mod 16) * 4 + c div 64) div 4 = b"
proof -
  have "b div 16 < 16" using assms by (simp add: div_less_iff_less_mult)
  then have 1: "((a mod 4) * 16 + b div 16) mod 16 = b div 16" by simp
  have "c div 64 < 4" using assms by (simp add: div_less_iff_less_mult)
  then have 2: "((b mod 16) * 4 + c div 64) div 4 = b mod 16" by simp
  show ?thesis unfolding 1 2 by simp
qed

lemma regroup3:
  fixes b c :: nat
  assumes "c < 256"
  shows "(((b mod 16) * 4 + c div 64) mod 4) * 64 + c mod 64 = c"
proof -
  have "c div 64 < 4" using assms by (simp add: div_less_iff_less_mult)
  then have 1: "((b mod 16) * 4 + c div 64) mod 4 = c div 64" by simp
  show ?thesis unfolding 1 by simp
qed

lemma decode_quad:
  assumes "a < 256" "b < 256" "c < 256" "b64_decode (b64_encode rest) = Some rest"
  shows "b64_decode (b64_encode (a # b # c # rest)) = Some (a # b # c # rest)"
proof -
  note s = sextets[OF assms(1-3)]
  have "b64_char (c mod 64) \<noteq> CHR ''=''" using s(4) by (rule b64_char_not_pad)
  then show ?thesis
    using regroup1[OF assms(2), of a] regroup2[OF assms(2,3), of a] regroup3[OF assms(3), of b]
    by (simp add: b64_value_char s assms(4))
qed

lemma decode_pair:
  assumes "a < 256" "b < 256"
  shows "b64_decode (b64_encode [a, b]) = Some [a, b]"
proof -
  have z: "(0::nat) < 256" by simp
  note s = sextets[OF assms z]
  have "b64_char ((b mod 16) * 4) \<noteq> CHR ''=''" using s(6) by (rule b64_char_not_pad)
  then show ?thesis
    using regroup1[OF assms(2), of a] regroup2[OF assms(2) z, of a]
    by (simp add: b64_value_char s)
qed

lemma decode_single:
  assumes "a < 256"
  shows "b64_decode (b64_encode [a]) = Some [a]"
proof -
  have z: "(0::nat) < 256" by simp
  note s = sextets[OF assms z z]
  show ?thesis
    using regroup1[OF z, of a]
    by (simp add: b64_value_char s)
qed

lemma b64_roundtrip: "\<forall>a \<in> set bs. a < 256 \<Longrightarrow> b64_decode (b64_encode bs) = Some bs"
proof (induction bs rule: b64_encode.induct)
  case (1 a b c rest)
  then show ?case using decode_quad [of a b c rest] by simp
next
  case (2 a b)
  then show ?case using decode_pair [of a b] by simp
next
  case (3 a)
  then show ?case using decode_single [of a] by simp
next
  case 4
  then show ?case by simp
qed

lemma binary_loop_eq: "binary_loop binary bytes = binary @ map fromCharCode bytes"
  by (induction bytes arbitrary: binary) simp_all

lemma unat_byte: "unat (b :: 8 word) < 256"
  using unsigned_less [of b] by simp

lemma unat_fromCharCode: "unat (fromCharCode b) = unat b"
  using unat_byte [of b] by (simp add: fromCharCode_def unsigned_ucast_eq take_bit_eq_mod)

lemma fromCharCode_le: "\<not> 255 < fromCharCode b"
  using unat_byte [of b] by (simp add: word_less_nat_alt unat_fromCharCode)

lemma btoa_binary: "btoa (map fromCharCode bytes) = Inr (b64_encode (map unat bytes))"
proof -
  have ok: "\<not> list_ex (\<lambda>c. 255 < c) (map fromCharCode bytes)"
    by (simp add: list_ex_iff fromCharCode_le)
  have same: "map unat (map fromCharCode bytes) = map unat bytes"
    by (simp add: unat_fromCharCode)
  show ?thesis
    unfolding btoa_def same using ok by simp
qed

lemma arrayBufferToBase64_eq: "arrayBufferToBase64 bytes = Inr (b64_encode (map unat bytes))"
  by (simp add: arrayBufferToBase64_def binary_loop_eq btoa_binary)

subsection \<open>The model on concrete inputs\<close>

lemmas handlers = handleFileChange_def handleSubmit_begin_def handleSubmit_encode_def
  handleSubmit_then_def handleSubmit_catch_def timer_callback_def awaiting_def remove_nth_def
  isAudioFormatSupported_def SUPPORTED_FORMATS_def MAX_FILE_SIZE_def MAX_REQUESTS_PER_MINUTE_def
  REQUEST_INTERVAL_def

lemmas samples = sample_audio_def oversized_audio_def text_document_def

lemma encode_Man: "arrayBufferToBase64 [77, 97, 110] = Inr ''TWFu''"
  by (simp add: arrayBufferToBase64_def btoa_def fromCharCode_def b64_char_def b64_alphabet_def)

lemma replicate_ten: "replicate 10 x = [x, x, x, x, x, x, x, x, x, x]"
  by (simp add: eval_nat_numeral)

lemma run_ten_successes: "run ten_successes init = Some saturated"
  by (simp add: ten_successes_def nine_successes_def one_success_def init_def saturated_def
      handlers encode_Man sample_audio_def replicate_ten)

lemma run_overlapping: "run overlapping init = Some overfull"
  by (simp add: overlapping_def nine_successes_def one_success_def init_def overfull_def
      handlers encode_Man sample_audio_def replicate_ten)

lemma no_overlap_ten_successes: "no_overlap ten_successes init"
  by (simp add: ten_successes_def nine_successes_def one_success_def init_def
      handlers encode_Man sample_audio_def)

lemma run_waiting: "run [Change (Some [sample_audio]), Submit, BufferResolved 0 [77, 97, 110]] init = Some waiting"
  by (simp add: init_def waiting_def handlers encode_Man sample_audio_def)

lemma encode_padded:
  "arrayBufferToBase64 [77, 97] = Inr ''TWE='' \<and> arrayBufferToBase64 [77] = Inr ''TQ==''"
  by (simp add: arrayBufferToBase64_def btoa_def fromCharCode_def b64_char_def b64_alphabet_def)

lemma btoa_throws: "btoa [77, 256] = Inl InvalidCharacterError"
  by (simp add: btoa_def)

lemma decode_Man: "base64_decode ''TWFu'' = Some [77, 97, 110]"
  by (simp add: base64_decode_def b64_value_def b64_alphabet_def)

lemma decode_padded: "base64_decode ''TWE='' = Some [77, 97] \<and> base64_decode ''TQ=='' = Some [77]"
  by (simp add: base64_decode_def b64_value_def b64_alphabet_def)

lemma decode_rejects: "base64_decode ''TWF'' = None \<and> base64_decode ''T*Fu'' = None"
  by (simp add: base64_decode_def b64_value_def b64_alphabet_def)

section \<open>The claims\<close>

text \<open>
  C1. A submission attempted with a file selected while the counter is at or above 10 is
  rejected: the handler sets the rate-limit message and changes nothing else, so it
  sends no request and suspends no submission. This holds of every state, whether
  reachable or not, and so for a counter of 10 and for one above it; the witness has
  both. (Without a file the handler returns on line 53 before it reads the counter; by
  \<open>counted_implies_file\<close> no reachable state has a counter above zero and no file.)
\<close>

theorem rate_limit_rejects:
  assumes "file' s \<noteq> None" and "requestCount s \<ge> 10"
  shows "handleSubmit_begin s =
           s\<lparr>error := ''Rate limit exceeded. Please wait before making another request.''\<rparr> \<and>
         calls (handleSubmit_begin s) = calls s \<and> inflight (handleSubmit_begin s) = inflight s \<and>
         step Submit s = Some (handleSubmit_begin s)"
  using assms
  by (auto simp: handleSubmit_begin_def MAX_REQUESTS_PER_MINUTE_def rate_limit_error_def)

theorem rate_limit_rejects_witness:
  "run ten_successes init = Some saturated \<and> requestCount saturated = 10 \<and>
   handleSubmit_begin saturated =
     saturated\<lparr>error := ''Rate limit exceeded. Please wait before making another request.''\<rparr> \<and>
   run overlapping init = Some overfull \<and> requestCount overfull = 11 \<and>
   handleSubmit_begin overfull =
     overfull\<lparr>error := ''Rate limit exceeded. Please wait before making another request.''\<rparr>"
  using rate_limit_rejects [of saturated] rate_limit_rejects [of overfull]
    run_ten_successes run_overlapping
  by (simp add: saturated_def overfull_def)

text \<open>
  C2, as stated: the counter is between 0 and 10 in every reachable state. This fails.
  After nine successful submissions, two submit events arrive one after the other; both
  pass the test of line 55 with the counter at 9, both are answered, and the counter
  is 11.
\<close>

theorem counter_exceeds_limit:
  "run overlapping init = Some overfull \<and>
   \<not> (0 \<le> requestCount overfull \<and> requestCount overfull \<le> MAX_REQUESTS_PER_MINUTE)"
  using run_overlapping by (simp add: overfull_def MAX_REQUESTS_PER_MINUTE_def)

text \<open>
  C2, amended: in every reachable state the counter is at least 0; and it is at most 10
  in every state reached by a sequence of events in which no submit event arrives while
  the page is loading.
\<close>

theorem counter_bounds:
  assumes "run es init = Some s"
  shows "0 \<le> requestCount s \<and> (no_overlap es init \<longrightarrow> requestCount s \<le> 10)"
proof -
  from assms have "page_inv s" by (rule inv_reachable)
  then have "0 \<le> requestCount s" by (simp add: page_inv_def)
  moreover have "requestCount s \<le> 10" if "no_overlap es init"
  proof -
    from serial_init assms that have "serial_inv s" by (rule serial_run)
    then show ?thesis by (simp add: serial_inv_def MAX_REQUESTS_PER_MINUTE_def)
  qed
  ultimately show ?thesis by blast
qed

theorem counter_bounds_witness:
  "run ten_successes init = Some saturated \<and> no_overlap ten_successes init \<and>
   0 \<le> requestCount saturated \<and> requestCount saturated \<le> 10 \<and>
   run overlapping init = Some overfull \<and> 0 \<le> requestCount overfull"
  using counter_bounds [of ten_successes saturated] counter_bounds [of overlapping overfull]
    run_ten_successes run_overlapping no_overlap_ten_successes
  by (simp add: saturated_def overfull_def)

text \<open>
  C3. When the service answers a submission, the counter goes up by exactly one at that
  moment and a callback is scheduled 60000 ms later. Whatever happens afterwards, as long
  as fewer than 60000 ms have passed that callback is still pending; and a callback that
  runs is due, and takes exactly one from the counter, which stays at or above zero.
\<close>

theorem counter_increment_and_decrement:
  assumes "run es0 init = Some s" and "awaiting AwaitResponse k s"
  shows "\<exists>s1. step (CallResolved k text) s = Some s1 \<and>
           requestCount s1 = requestCount s + 1 \<and>
           timers s1 = timers s @ [now s + 60 * 1000] \<and>
           (\<forall>es s2. run es s1 = Some s2 \<longrightarrow>
              (now s2 < now s + 60 * 1000 \<longrightarrow> now s + 60 * 1000 \<in> set (timers s2)) \<and>
              (\<forall>i s3. step (TimerFires i) s2 = Some s3 \<longrightarrow>
                 timers s2 ! i \<le> now s2 \<and> requestCount s3 = requestCount s2 - 1 \<and>
                 requestCount s3 = max (requestCount s2 - 1) 0 \<and> 0 \<le> requestCount s3))"
proof -
  define s1 where "s1 = handleSubmit_then k text s"
  have st: "step (CallResolved k text) s = Some s1"
    using assms(2) by (simp add: s1_def)
  have cnt: "requestCount s1 = requestCount s + 1"
    and tm: "timers s1 = timers s @ [now s + 60 * 1000]"
    by (simp_all add: s1_def handleSubmit_then_def REQUEST_INTERVAL_def)
  have "page_inv s" using assms(1) by (rule inv_reachable)
  then have inv1: "page_inv s1" using st by (rule inv_step)
  have later: "(now s2 < now s + 60 * 1000 \<longrightarrow> now s + 60 * 1000 \<in> set (timers s2)) \<and>
      (\<forall>i s3. step (TimerFires i) s2 = Some s3 \<longrightarrow>
         timers s2 ! i \<le> now s2 \<and> requestCount s3 = requestCount s2 - 1 \<and>
         requestCount s3 = max (requestCount s2 - 1) 0 \<and> 0 \<le> requestCount s3)"
    if r: "run es s1 = Some s2" for es s2
  proof -
    have "now s + 60 * 1000 \<in> set (timers s1)" by (simp add: tm)
    with r have "now s2 < now s + 60 * 1000 \<Longrightarrow> now s + 60 * 1000 \<in> set (timers s2)"
      by (rule pending_run)
    moreover have "page_inv s2" using inv1 r by (rule inv_run)
    ultimately show ?thesis using timer_fires_exact by blast
  qed
  from st cnt tm later show ?thesis by blast
qed

theorem counter_increment_and_decrement_witness:
  "run [Change (Some [sample_audio]), Submit, BufferResolved 0 [77, 97, 110]] init = Some waiting \<and>
   awaiting AwaitResponse 0 waiting \<and>
   (\<exists>s1. step (CallResolved 0 ''hello'') waiting = Some s1 \<and> requestCount s1 = 1 \<and>
      timers s1 = [60000] \<and>
      (\<exists>s2. run [Tick 59999] s1 = Some s2 \<and> 60000 \<in> set (timers s2) \<and>
         step (TimerFires 0) s2 = None) \<and>
      (\<exists>s2 s3. run [Tick 60000] s1 = Some s2 \<and> step (TimerFires 0) s2 = Some s3 \<and>
         requestCount s3 = 0))"
  using counter_increment_and_decrement [of "[Change (Some [sample_audio]), Submit, BufferResolved 0 [77, 97, 110]]" waiting 0 "''hello''"]
    run_waiting
  by (simp add: waiting_def handlers)

text \<open>
  C4. Only the successful completion of a submission adds to the counter and schedules a
  decrement, and only a timer callback removes one: every other step, among them a
  rejected file selection, a submission rejected by the rate limit and a failed read or
  call, leaves the counter and the pending decrements as they were.
\<close>

theorem only_success_consumes_slot:
  assumes "step e s = Some s'"
    and "\<forall>k t. e \<noteq> CallResolved k t" and "\<forall>i. e \<noteq> TimerFires i"
  shows "requestCount s' = requestCount s \<and> timers s' = timers s"
  using assms
  by (cases e)
    (auto simp: handleSubmit_begin_def handleSubmit_encode_def handleSubmit_catch_def
      split: if_splits sum.splits option.splits dest!: handleFileChange_frame)

theorem only_success_consumes_slot_witness:
  "step (Change (Some [text_document])) saturated = Some (saturated\<lparr>error := format_error\<rparr>) \<and>
   requestCount (saturated\<lparr>error := format_error\<rparr>) = requestCount saturated \<and>
   timers (saturated\<lparr>error := format_error\<rparr>) = timers saturated \<and>
   step Submit saturated = Some (saturated\<lparr>error := rate_limit_error\<rparr>) \<and>
   requestCount (saturated\<lparr>error := rate_limit_error\<rparr>) = requestCount saturated \<and>
   timers (saturated\<lparr>error := rate_limit_error\<rparr>) = timers saturated \<and>
   step (CallRejected 0) waiting = Some (handleSubmit_catch 0 waiting) \<and>
   requestCount (handleSubmit_catch 0 waiting) = requestCount waiting \<and>
   timers (handleSubmit_catch 0 waiting) = timers waiting"
  using only_success_consumes_slot [of "Change (Some [text_document])" saturated "saturated\<lparr>error := format_error\<rparr>"]
    only_success_consumes_slot [of Submit saturated "saturated\<lparr>error := rate_limit_error\<rparr>"]
    only_success_consumes_slot [of "CallRejected 0" waiting "handleSubmit_catch 0 waiting"]
  by (simp add: saturated_def waiting_def handlers samples)

text \<open>
  C5. For every sequence of bytes, \<open>arrayBufferToBase64\<close> returns a text (it does not
  throw), and standard base64 decoding of that text gives the bytes back. The witness is
  the sequence 0, 1, ..., 255.
\<close>

theorem base64_round_trip:
  "\<exists>encoded. arrayBufferToBase64 bytes = Inr encoded \<and> base64_decode encoded = Some bytes"
proof -
  have "\<forall>a \<in> set (map unat bytes). a < 256"
    by (auto simp: unat_byte)
  then have "b64_decode (b64_encode (map unat bytes)) = Some (map unat bytes)"
    by (rule b64_roundtrip)
  then show ?thesis
    by (simp add: arrayBufferToBase64_eq base64_decode_def comp_def)
qed

theorem base64_round_trip_witness:
  "\<exists>encoded. arrayBufferToBase64 all_bytes = Inr encoded \<and> base64_decode encoded = Some all_bytes"
  by (rule base64_round_trip)

text \<open>
  C6. A candidate file larger than 10 MiB is rejected: the handler sets the size-limit
  message and leaves the selected file, and every other field, as it was.
\<close>

theorem oversized_file_rejected:
  assumes "fsize f > 10 * 1024 * 1024"
  shows "\<exists>s'. handleFileChange (Some (f # fs)) s = Inr s' \<and>
           error s' = ''File size exceeds the maximum limit of 10MB.'' \<and>
           file' s' = file' s \<and> s' = s\<lparr>error := error s'\<rparr>"
  using assms by (simp add: handleFileChange_def MAX_FILE_SIZE_def size_error_text)

theorem oversized_file_rejected_witness:
  "fsize oversized_audio > 10 * 1024 * 1024 \<and>
   (\<exists>s'. handleFileChange (Some [oversized_audio]) saturated = Inr s' \<and>
      error s' = ''File size exceeds the maximum limit of 10MB.'' \<and>
      file' s' = Some sample_audio)"
  using oversized_file_rejected [of oversized_audio "[]" saturated]
  by (auto simp: oversized_audio_def saturated_def)

text \<open>
  C7. For a candidate file within the size limit: if its MIME type is one of the five
  allowed types the file is stored and the error message is cleared; otherwise the format
  message is set and the selected file stays as it was.
\<close>

theorem format_check:
  assumes "fsize f \<le> 10 * 1024 * 1024"
  shows "handleFileChange (Some (f # fs)) s =
     (if ftype f \<in> {''audio/mp3'', ''audio/mpeg'', ''audio/wav'', ''audio/x-wav'', ''audio/ogg''}
      then Inr (s\<lparr>file' := Some f, error := []\<rparr>)
      else Inr (s\<lparr>error := ''Unsupported audio format. Please upload an MP3, WAV, or OGG file.''\<rparr>))"
  using assms
  by (simp add: handleFileChange_def MAX_FILE_SIZE_def isAudioFormatSupported_def
      SUPPORTED_FORMATS_def format_error_def)

theorem format_check_witness:
  "handleFileChange (Some [text_document]) saturated =
     Inr (saturated\<lparr>error := ''Unsupported audio format. Please upload an MP3, WAV, or OGG file.''\<rparr>) \<and>
   handleFileChange (Some [sample_audio]) (init\<lparr>error := ''stale''\<rparr>) =
     Inr (init\<lparr>file' := Some sample_audio, error := []\<rparr>)"
  using format_check [of text_document "[]" saturated]
    format_check [of sample_audio "[]" "init\<lparr>error := ''stale''\<rparr>"]
  by (simp add: samples)

text \<open>
  C8. When the service answers a submission with a text, the transcript is that text,
  the loading flag is false and progress is 100.
\<close>

theorem success_updates:
  assumes "awaiting AwaitResponse k s"
  shows "\<exists>s'. step (CallResolved k text) s = Some s' \<and>
           transcript s' = text \<and> \<not> isLoading s' \<and> progress s' = 100"
  using assms by (simp add: handleSubmit_then_def)

theorem success_updates_witness:
  "awaiting AwaitResponse 0 waiting \<and>
   (\<exists>s'. step (CallResolved 0 ''bonjour'') waiting = Some s' \<and>
      transcript s' = ''bonjour'' \<and> \<not> isLoading s' \<and> progress s' = 100)"
  using success_updates [of 0 waiting "''bonjour''"]
  by (simp add: awaiting_def waiting_def)

text \<open>
  C9. When reading the file or the call to the service fails, the transcript stays as it
  was, the generic transcription message is set, the loading flag is false and progress
  is 100.
\<close>

theorem failure_updates:
  assumes "awaiting AwaitBuffer k s \<and> e = BufferRejected k \<or>
           awaiting AwaitResponse k s \<and> e = CallRejected k"
  shows "\<exists>s'. step e s = Some s' \<and> transcript s' = transcript s \<and>
           error s' = ''Error transcribing audio. Please try again.'' \<and>
           \<not> isLoading s' \<and> progress s' = 100"
  using assms by (auto simp: handleSubmit_catch_def transcription_error_def)

theorem failure_updates_witness:
  "awaiting AwaitResponse 0 waiting \<and>
   (\<exists>s'. step (CallRejected 0) waiting = Some s' \<and> transcript s' = transcript waiting \<and>
      error s' = ''Error transcribing audio. Please try again.'' \<and>
      \<not> isLoading s' \<and> progress s' = 100)"
  using failure_updates [of 0 waiting "CallRejected 0"]
  by (simp add: awaiting_def waiting_def)

text \<open>
  C10. \<open>handleFileChange\<close> throws exactly when the files list is present and empty: it
  reads element 0 without testing the length. With a first element it looks at that
  element only.
\<close>

theorem empty_file_list_faults:
  "(handleFileChange files s = Inl TypeError \<longleftrightarrow> files = Some []) \<and>
   handleFileChange (Some (f # fs)) s = handleFileChange (Some [f]) s"
  by (auto simp: handleFileChange_def split: option.splits list.splits)

theorem empty_file_list_faults_witness:
  "handleFileChange (Some []) init = Inl TypeError \<and>
   handleFileChange (Some [sample_audio, text_document]) init = handleFileChange (Some [sample_audio]) init"
  using empty_file_list_faults [of "Some []" init sample_audio "[text_document]"]
  by simp

end
